theory Spec2Isabelle
  imports Complex_Main
begin

section \<open>Values, objects and the world the profiler runs in\<close>

text \<open>
  The embedding follows \<^verbatim>\<open>profiling_wrapper.py\<close>. Python values are a small closed
  universe: \<^verbatim>\<open>None\<close>, integers, strings, functions (identified by the number of their
  code) and references to objects. An object has a class name, a table of the
  attributes that \<^verbatim>\<open>getattr\<close> resolves on it (instance attributes and the methods of its
  class alike) and its own rule for setting an attribute: by default the value is
  stored in the table, but a class may refuse (a property without a setter, a name
  outside \<^verbatim>\<open>__slots__\<close>) or store otherwise (its own \<^verbatim>\<open>__setattr__\<close>). A function takes
  attributes too; \<^verbatim>\<open>None\<close>, integers and strings carry none here and take none.
  Elapsed times are Python floats; they are modelled as real numbers, so rounding is
  left out.
\<close>

type_synonym addr = nat

datatype pyval = PNone | PInt int | PStr string | PFun nat | PRef addr

datatype exn =
    AttributeError string string  \<comment> \<open>type name, attribute name\<close>
  | TypeError string
  | ValueError string
  | Raised string                 \<comment> \<open>any exception raised by the body of a target method\<close>

type_synonym attr_table = "string \<rightharpoonup> pyval"

record pyobj =
  cls_name :: string
  attrs :: attr_table
  setattr_rule :: "string \<Rightarrow> pyval \<Rightarrow> attr_table \<Rightarrow> exn + attr_table"

definition plain_setattr :: "string \<Rightarrow> pyval \<Rightarrow> attr_table \<Rightarrow> exn + attr_table" where
  \<comment> \<open>\<^verbatim>\<open>object.__setattr__\<close> on an ordinary attribute\<close>
  "plain_setattr name val tab = Inr (tab(name \<mapsto> val))"

type_synonym call_args = "pyval list \<times> (string \<times> pyval) list"

type_synonym heap = "addr \<Rightarrow> pyobj"

text \<open>
  An instance of \<^verbatim>\<open>ProfilingWrapper\<close> holds \<^verbatim>\<open>_wrapped_obj\<close> and \<^verbatim>\<open>_class_name\<close>, set by
  \<^verbatim>\<open>__init__\<close>, and whatever other attributes \<^verbatim>\<open>super().__setattr__\<close> has stored on it.
\<close>

record proxy =
  wrapped_obj :: pyval
  class_name :: pyval
  others :: "string \<rightharpoonup> pyval"

text \<open>
  \<^verbatim>\<open>_profiling_data\<close> is a class attribute, one \<^verbatim>\<open>defaultdict(list)\<close> for the whole
  process: a dictionary (in insertion order) from key to a list object. Lists and numpy
  arrays are mutable and are handed around by reference, so they live in a store of
  sequences, \<open>seqs\<close>, addressed by \<open>addr\<close>; \<open>next_seq\<close> is the next address the
  allocator hands out. \<open>clock\<close> lists the successive readings of
  \<^verbatim>\<open>time.perf_counter()\<close> and \<open>ticks\<close> counts the readings taken so far.
  \<open>base_attrs\<close> are the attribute names that every instance inherits from the root
  class \<^verbatim>\<open>object\<close> (\<^verbatim>\<open>__class__\<close>, \<^verbatim>\<open>__dict__\<close>, \<^verbatim>\<open>__repr__\<close>, ...), which the
  interpreter fixes. The proxies of the program are objects as well, \<open>proxies\<close>, and
  \<open>fun_attrs\<close> holds the attributes that have been set on functions.
\<close>

record world =
  objs :: heap
  fun_attrs :: "nat \<Rightarrow> attr_table"
  proxies :: "addr \<Rightarrow> proxy"
  seqs :: "addr \<Rightarrow> real list"
  next_seq :: addr
  profiling_data :: "(string \<times> addr) list"
  clock :: "nat \<Rightarrow> real"
  ticks :: nat
  base_attrs :: "string list"

text \<open>
  The body of a callable is arbitrary code: it receives the positional and keyword
  arguments and runs in the whole world, so it can change objects, call through a
  proxy, call the class methods of the registry, reassign the fields of a proxy and
  read the clock. It either raises or returns a value, with the world as it left it.
  The bodies of the program are given by a table from code numbers.
\<close>

type_synonym callable_body = "call_args \<Rightarrow> world \<Rightarrow> (exn + pyval) \<times> world"

type_synonym code_table = "nat \<Rightarrow> callable_body"

section \<open>The registry: \<^verbatim>\<open>defaultdict(list)\<close>, lists and numpy arrays\<close>

definition contains_key :: "(string \<times> addr) list \<Rightarrow> string \<Rightarrow> bool" where
  \<comment> \<open>\<^verbatim>\<open>key in d\<close>\<close>
  "contains_key d key = (map_of d key \<noteq> None)"

definition dd_getitem :: "world \<Rightarrow> string \<Rightarrow> addr \<times> world" where
  \<comment> \<open>\<^verbatim>\<open>_profiling_data[key]\<close>: a missing key is created, mapped to a new empty list\<close>
  "dd_getitem w key =
     (case map_of (profiling_data w) key of
        Some a \<Rightarrow> (a, w)
      | None \<Rightarrow>
          (let a = next_seq w
           in (a, w\<lparr>seqs := (seqs w)(a := []), next_seq := Suc a,
                    profiling_data := profiling_data w @ [(key, a)]\<rparr>)))"

definition np_array :: "real list \<Rightarrow> world \<Rightarrow> addr \<times> world" where
  \<comment> \<open>\<^verbatim>\<open>np.array(xs)\<close>: a new array holding a copy of the elements\<close>
  "np_array xs w =
     (let a = next_seq w in (a, w\<lparr>seqs := (seqs w)(a := xs), next_seq := Suc a\<rparr>))"

definition record_sample :: "world \<Rightarrow> string \<Rightarrow> real \<Rightarrow> world" where
  \<comment> \<open>\<^verbatim>\<open>ProfilingWrapper._profiling_data[key].append(execution_time)\<close>\<close>
  "record_sample w key execution_time =
     (let (a, w1) = dd_getitem w key
      in w1\<lparr>seqs := (seqs w1)(a := seqs w1 a @ [execution_time])\<rparr>)"

definition get_profiling_data :: "world \<Rightarrow> string \<Rightarrow> addr \<times> world" where
  "get_profiling_data w key =
     (if contains_key (profiling_data w) key
      then (let (a, w1) = dd_getitem w key in np_array (seqs w1 a) w1)
      else np_array [] w)"

fun copy_items :: "(string \<times> addr) list \<Rightarrow> world \<Rightarrow> (string \<times> addr) list \<times> world" where
  \<comment> \<open>the comprehension \<^verbatim>\<open>{key: np.array(times) for key, times in d.items()}\<close>\<close>
  "copy_items [] w = ([], w)"
| "copy_items ((key, times_a) # rest) w =
     (let (r, w1) = np_array (seqs w times_a) w;
          (out, w2) = copy_items rest w1
      in ((key, r) # out, w2))"

definition get_all_profiling_data :: "world \<Rightarrow> (string \<times> addr) list \<times> world" where
  "get_all_profiling_data w = copy_items (profiling_data w) w"

definition clear_profiling_data :: "world \<Rightarrow> string option \<Rightarrow> world" where
  "clear_profiling_data w key =
     (case key of
        None \<Rightarrow> w\<lparr>profiling_data := []\<rparr>
      | Some k \<Rightarrow>
          if contains_key (profiling_data w) k
          then (let (a, w1) = dd_getitem w k in w1\<lparr>seqs := (seqs w1)(a := [])\<rparr>)
          else w)"

subsection \<open>The numpy reductions\<close>

text \<open>
  numpy is an external library; its reductions are written out from their documented
  meaning. \<^verbatim>\<open>np.min\<close> and \<^verbatim>\<open>np.max\<close> raise \<^verbatim>\<open>ValueError\<close> on an empty array.
  \<^verbatim>\<open>np.mean\<close>, \<^verbatim>\<open>np.median\<close> and \<^verbatim>\<open>np.std\<close> give \<^verbatim>\<open>nan\<close> on an empty array, a value
  the real numbers do not have: the functions below are meant for non-empty arrays only,
  and \<open>get_statistics\<close> reduces no other. \<^verbatim>\<open>np.std\<close> divides the sum of the squared
  deviations by \<^verbatim>\<open>N - ddof\<close>; \<^verbatim>\<open>ddof\<close> is 0 unless the caller passes it.
\<close>

definition np_sum :: "real list \<Rightarrow> real" where
  "np_sum xs = sum_list xs"

definition np_mean :: "real list \<Rightarrow> real" where
  "np_mean xs = sum_list xs / real (length xs)"

definition np_median :: "real list \<Rightarrow> real" where
  "np_median xs =
     (let s = sort xs; n = length s
      in if n mod 2 = 1 then s ! (n div 2)
         else (s ! (n div 2 - 1) + s ! (n div 2)) / 2)"

definition np_var :: "nat \<Rightarrow> real list \<Rightarrow> real" where
  "np_var ddof xs =
     sum_list (map (\<lambda>x. \<bar>x - np_mean xs\<bar> ^ 2) xs) / real (length xs - ddof)"

definition np_std :: "nat \<Rightarrow> real list \<Rightarrow> real" where
  "np_std ddof xs = sqrt (np_var ddof xs)"

fun np_min :: "real list \<Rightarrow> exn + real" where
  "np_min [] = Inl (ValueError ''zero-size array to reduction operation minimum which has no identity'')"
| "np_min (x # xs) = Inr (fold min xs x)"

fun np_max :: "real list \<Rightarrow> exn + real" where
  "np_max [] = Inl (ValueError ''zero-size array to reduction operation maximum which has no identity'')"
| "np_max (x # xs) = Inr (fold max xs x)"

record stats =
  count :: nat
  mean :: real
  median :: real
  std :: real
  min_val :: real
  max_val :: real
  total :: real

definition zero_stats :: stats where
  "zero_stats = \<lparr>count = 0, mean = 0, median = 0, std = 0, min_val = 0, max_val = 0, total = 0\<rparr>"

definition get_statistics :: "world \<Rightarrow> string \<Rightarrow> (exn + stats) \<times> world" where
  "get_statistics w key =
     (let (d, w1) = get_profiling_data w key;
          data = seqs w1 d
      in if length data = 0 then (Inr zero_stats, w1)
         else (case np_min data of
                 Inl e \<Rightarrow> (Inl e, w1)
               | Inr lo \<Rightarrow>
                   (case np_max data of
                      Inl e \<Rightarrow> (Inl e, w1)
                    | Inr hi \<Rightarrow>
                        (Inr \<lparr>count = length data, mean = np_mean data,
                              median = np_median data, std = np_std 0 data,
                              min_val = lo, max_val = hi, total = np_sum data\<rparr>, w1))))"

section \<open>Attribute access on Python values\<close>

definition callable :: "pyval \<Rightarrow> bool" where
  "callable v = (case v of PFun _ \<Rightarrow> True | _ \<Rightarrow> False)"

definition py_type_name :: "world \<Rightarrow> pyval \<Rightarrow> string" where
  \<comment> \<open>\<^verbatim>\<open>v.__class__.__name__\<close>\<close>
  "py_type_name w v =
     (case v of PNone \<Rightarrow> ''NoneType'' | PInt _ \<Rightarrow> ''int'' | PStr _ \<Rightarrow> ''str''
      | PFun _ \<Rightarrow> ''function'' | PRef a \<Rightarrow> cls_name (objs w a))"

definition py_getattr :: "world \<Rightarrow> pyval \<Rightarrow> string \<Rightarrow> exn + pyval" where
  \<comment> \<open>\<^verbatim>\<open>getattr(v, name)\<close>; the error is the target's own \<^verbatim>\<open>AttributeError\<close>\<close>
  "py_getattr w v name =
     (case (case v of PRef a \<Rightarrow> attrs (objs w a) name | PFun c \<Rightarrow> fun_attrs w c name
            | _ \<Rightarrow> None) of
        Some x \<Rightarrow> Inr x
      | None \<Rightarrow> Inl (AttributeError (py_type_name w v) name))"

definition py_setattr :: "world \<Rightarrow> pyval \<Rightarrow> string \<Rightarrow> pyval \<Rightarrow> exn + world" where
  \<comment> \<open>\<^verbatim>\<open>setattr(v, name, value)\<close>: an object follows its own rule and may refuse, a function
      stores the value, a value of another built-in type takes no attribute\<close>
  "py_setattr w v name val =
     (case v of
        PRef a \<Rightarrow>
          (case setattr_rule (objs w a) name val (attrs (objs w a)) of
             Inl e \<Rightarrow> Inl e
           | Inr tab \<Rightarrow> Inr (w\<lparr>objs := (objs w)(a := (objs w a)\<lparr>attrs := tab\<rparr>)\<rparr>))
      | PFun c \<Rightarrow> Inr (w\<lparr>fun_attrs := (fun_attrs w)(c := (fun_attrs w c)(name \<mapsto> val))\<rparr>)
      | _ \<Rightarrow> Inl (AttributeError (py_type_name w v) name))"

definition call_value ::
  "code_table \<Rightarrow> pyval \<Rightarrow> call_args \<Rightarrow> world \<Rightarrow> (exn + pyval) \<times> world" where
  \<comment> \<open>\<^verbatim>\<open>attr(*args, **kwargs)\<close>\<close>
  "call_value cd attr args w =
     (case attr of
        PFun c \<Rightarrow> cd c args w
      | _ \<Rightarrow> (Inl (TypeError (py_type_name w attr)), w))"

fun digits_of :: "nat \<Rightarrow> string" where
  "digits_of n =
     (if n < 10 then [char_of (48 + n)]
      else digits_of (n div 10) @ [char_of (48 + n mod 10)])"

definition py_str :: "world \<Rightarrow> pyval \<Rightarrow> string" where
  \<comment> \<open>how an f-string renders a value; the default rendering of an object or a function
      also shows its memory address, which is left out\<close>
  "py_str w v =
     (case v of
        PNone \<Rightarrow> ''None''
      | PInt i \<Rightarrow> (if i < 0 then ''-'' @ digits_of (nat (- i)) else digits_of (nat i))
      | PStr s \<Rightarrow> s
      | PFun _ \<Rightarrow> ''<function>''
      | PRef a \<Rightarrow> ''<'' @ cls_name (objs w a) @ '' object>'')"

definition perf_counter :: "world \<Rightarrow> real \<times> world" where
  \<comment> \<open>\<^verbatim>\<open>time.perf_counter()\<close>: the next reading of the clock\<close>
  "perf_counter w = (clock w (ticks w), w\<lparr>ticks := Suc (ticks w)\<rparr>)"

section \<open>The proxy: \<^verbatim>\<open>ProfilingWrapper\<close>\<close>

text \<open>
  Python looks an attribute up on the instance and its class first; \<^verbatim>\<open>__getattr__\<close>
  runs only when that lookup finds nothing.
\<close>

definition proxy_init :: "world \<Rightarrow> pyval \<Rightarrow> proxy" where
  \<comment> \<open>\<^verbatim>\<open>__init__\<close>\<close>
  "proxy_init w obj =
     \<lparr>wrapped_obj = obj, class_name = PStr (py_type_name w obj), others = Map.empty\<rparr>"

definition starts_with_underscore :: "string \<Rightarrow> bool" where
  \<comment> \<open>\<^verbatim>\<open>name.startswith('_')\<close>\<close>
  "starts_with_underscore name = (case name of [] \<Rightarrow> False | c # _ \<Rightarrow> c = CHR ''_'')"

definition store_own :: "proxy \<Rightarrow> string \<Rightarrow> pyval \<Rightarrow> proxy" where
  \<comment> \<open>\<^verbatim>\<open>super().__setattr__(name, value)\<close>: the attribute is set on the proxy itself\<close>
  "store_own self name val =
     (if name = ''_wrapped_obj'' then self\<lparr>wrapped_obj := val\<rparr>
      else if name = ''_class_name'' then self\<lparr>class_name := val\<rparr>
      else self\<lparr>others := (others self)(name \<mapsto> val)\<rparr>)"

definition own_attr :: "proxy \<Rightarrow> string \<Rightarrow> pyval option" where
  \<comment> \<open>the attributes of the proxy instance itself\<close>
  "own_attr self name =
     (if name = ''_wrapped_obj'' then Some (wrapped_obj self)
      else if name = ''_class_name'' then Some (class_name self)
      else others self name)"

definition class_attrs :: "string list" where
  \<comment> \<open>the names bound in the body of \<^verbatim>\<open>class ProfilingWrapper\<close>\<close>
  "class_attrs =
     [''_profiling_data'', ''__init__'', ''__getattr__'', ''__setattr__'',
      ''get_profiling_data'', ''get_all_profiling_data'', ''clear_profiling_data'',
      ''get_statistics'']"

text \<open>
  What reading an attribute of the proxy gives: a value as it is stored, the substitute
  \<^verbatim>\<open>timed_method\<close> (a closure over the proxy, the name and the callable it wraps), or
  a member of the proxy's own class.
\<close>

datatype attr_result = Plain pyval | Substitute string pyval | Member string

text \<open>
  \<open>self\<close> is the proxy as it is when the substitute is called: the key is made from
  its \<^verbatim>\<open>_class_name\<close> before the wrapped callable runs, and the proxy is not looked at
  again afterwards.
\<close>

definition timed_method ::
  "code_table \<Rightarrow> proxy \<Rightarrow> string \<Rightarrow> pyval \<Rightarrow> call_args \<Rightarrow> world \<Rightarrow> (exn + pyval) \<times> world" where
  "timed_method cd self name attr args w =
     (let key = py_str w (class_name self) @ ''.'' @ name;
          (start_time, w1) = perf_counter w;
          (res, w2) = call_value cd attr args w1
      in case res of
           Inl e \<Rightarrow> (Inl e, w2)
         | Inr result \<Rightarrow>
             (let (end_time, w3) = perf_counter w2;
                  execution_time = end_time - start_time;
                  w4 = record_sample w3 key execution_time
              in (Inr result, w4)))"

definition proxy_getattr :: "proxy \<Rightarrow> world \<Rightarrow> string \<Rightarrow> exn + attr_result" where
  \<comment> \<open>\<^verbatim>\<open>__getattr__\<close>\<close>
  "proxy_getattr self w name =
     (case py_getattr w (wrapped_obj self) name of
        Inl e \<Rightarrow> Inl e
      | Inr attr \<Rightarrow> if callable attr then Inr (Substitute name attr) else Inr (Plain attr))"

definition found_on_proxy :: "proxy \<Rightarrow> world \<Rightarrow> string \<Rightarrow> bool" where
  "found_on_proxy self w name =
     (own_attr self name \<noteq> None \<or> name \<in> set class_attrs \<or> name \<in> set (base_attrs w))"

definition proxy_read :: "proxy \<Rightarrow> world \<Rightarrow> string \<Rightarrow> exn + attr_result" where
  \<comment> \<open>the expression \<^verbatim>\<open>proxy.name\<close>\<close>
  "proxy_read self w name =
     (case own_attr self name of
        Some v \<Rightarrow> Inr (Plain v)
      | None \<Rightarrow>
          if name \<in> set class_attrs \<or> name \<in> set (base_attrs w) then Inr (Member name)
          else proxy_getattr self w name)"

definition proxy_setattr :: "proxy \<Rightarrow> world \<Rightarrow> string \<Rightarrow> pyval \<Rightarrow> exn + proxy \<times> world" where
  \<comment> \<open>\<^verbatim>\<open>__setattr__\<close>, the statement \<^verbatim>\<open>proxy.name = value\<close>\<close>
  "proxy_setattr self w name val =
     (if starts_with_underscore name then Inr (store_own self name val, w)
      else (case py_setattr w (wrapped_obj self) name val of
              Inl e \<Rightarrow> Inl e
            | Inr w1 \<Rightarrow> Inr (self, w1)))"

subsection \<open>Calling through the proxy\<close>

text \<open>
  The expression \<^verbatim>\<open>proxy.name(*args, **kwargs)\<close> reads the attribute on the proxy, which
  lives at an address of the world, and calls what the read gave. When the read gives a
  member of the proxy's own class (\<^verbatim>\<open>get_statistics\<close>, \<^verbatim>\<open>__repr__\<close>, ...), the call runs
  that member: neither \<^verbatim>\<open>__getattr__\<close> nor \<^verbatim>\<open>timed_method\<close> is involved, and what the
  member does is not part of this function.
\<close>

datatype 'a outcome = Returned "(exn + 'a) \<times> world" | OwnMember string

definition call_through ::
  "code_table \<Rightarrow> addr \<Rightarrow> world \<Rightarrow> string \<Rightarrow> call_args \<Rightarrow> pyval outcome" where
  "call_through cd p w name args =
     (case proxy_read (proxies w p) w name of
        Inl e \<Rightarrow> Returned (Inl e, w)
      | Inr (Substitute n attr) \<Rightarrow> Returned (timed_method cd (proxies w p) n attr args w)
      | Inr (Plain v) \<Rightarrow> Returned (call_value cd v args w)
      | Inr (Member n) \<Rightarrow> OwnMember n)"



text \<open>
  Writing an attribute through the proxy, then reading it back through the proxy and on
  the target itself: \<^verbatim>\<open>proxy.name = value; proxy.name; target.name\<close>.
\<close>

definition write_then_read ::
  "proxy \<Rightarrow> world \<Rightarrow> string \<Rightarrow> pyval \<Rightarrow> exn + (exn + attr_result) \<times> (exn + pyval)" where
  "write_then_read self w name val =
     (case proxy_setattr self w name val of
        Inl e \<Rightarrow> Inl e
      | Inr (p, w1) \<Rightarrow> Inr (proxy_read p w1 name, py_getattr w1 (wrapped_obj self) name))"

text \<open>
  A target stores a value plainly when its rule for that attribute is the ordinary one,
  as for an ordinary attribute of an object, or when it is a function.
\<close>

definition stores_plainly :: "world \<Rightarrow> pyval \<Rightarrow> string \<Rightarrow> pyval \<Rightarrow> bool" where
  "stores_plainly w target x v =
     (case target of
        PRef a \<Rightarrow> setattr_rule (objs w a) x v (attrs (objs w a)) = plain_setattr x v (attrs (objs w a))
      | PFun c \<Rightarrow> True
      | _ \<Rightarrow> False)"

section \<open>Observations and the invariant of the registry\<close>

definition stored_samples :: "world \<Rightarrow> string \<Rightarrow> real list" where
  \<comment> \<open>the sample sequence the registry holds for a key; none for a key it does not have\<close>
  "stored_samples w key =
     (case map_of (profiling_data w) key of None \<Rightarrow> [] | Some a \<Rightarrow> seqs w a)"




text \<open>
  A dictionary has each key once; every list of the registry was made by the
  \<^verbatim>\<open>defaultdict\<close> for one key, so no two keys share a list; and the allocator has not yet
  handed out an address it will hand out later.
\<close>

definition registry_ok :: "world \<Rightarrow> bool" where
  "registry_ok w =
     (distinct (map fst (profiling_data w)) \<and> distinct (map snd (profiling_data w)) \<and>
      list_all (\<lambda>a. a < next_seq w) (map snd (profiling_data w)))"


text \<open>
  A caller that mutates a sequence it holds changes the elements stored at that address,
  whatever it does to them.
\<close>

definition overwrite :: "world \<Rightarrow> addr \<Rightarrow> real list \<Rightarrow> world" where
  "overwrite w a ys = w\<lparr>seqs := (seqs w)(a := ys)\<rparr>"

text \<open>
  The population standard deviation in the words of the specification: the square root
  of the variance, the variance being the sum of the squared deviations from the mean
  divided by the number \<open>N\<close> of samples.
\<close>

definition population_std :: "real list \<Rightarrow> real" where
  "population_std xs =
     (let n = real (length xs); m = sum_list xs / n
      in sqrt (sum_list (map (\<lambda>x. (x - m) ^ 2) xs) / n))"

section \<open>A concrete world: the class of the test suite\<close>

definition sample_code :: code_table where
  \<comment> \<open>code 0 returns \<^verbatim>\<open>"fast"\<close>, as \<^verbatim>\<open>SampleClass.fast_method\<close>; any other code raises\<close>
  "sample_code c args w = (if c = 0 then (Inr (PStr ''fast''), w) else (Inl (Raised ''boom''), w))"

text \<open>
  The objects are instances of \<^verbatim>\<open>SampleClass\<close> with one attribute more, \<^verbatim>\<open>ro\<close>, a
  property without a setter whose value is 1, and one method more, \<^verbatim>\<open>nest\<close>, used
  below.
\<close>

definition sample_obj :: pyobj where
  "sample_obj =
     \<lparr>cls_name = ''SampleClass'',
      attrs = [''counter'' \<mapsto> PInt 0, ''fast_method'' \<mapsto> PFun 0, ''failing'' \<mapsto> PFun 1,
               ''nest'' \<mapsto> PFun 2, ''ro'' \<mapsto> PInt 1],
      setattr_rule = (\<lambda>name val tab.
         if name = ''ro'' then Inl (AttributeError ''SampleClass'' ''ro'')
         else plain_setattr name val tab)\<rparr>"

definition sample_world :: world where
  \<comment> \<open>the proxy at address \<open>p\<close> wraps the object at address \<open>p\<close>\<close>
  "sample_world =
     \<lparr>objs = (\<lambda>a. sample_obj), fun_attrs = (\<lambda>c. Map.empty),
      proxies = (\<lambda>p. \<lparr>wrapped_obj = PRef p, class_name = PStr ''SampleClass'',
                       others = Map.empty\<rparr>),
      seqs = (\<lambda>a. []), next_seq = 0,
      profiling_data = [], clock = (\<lambda>n. real n), ticks = 0,
      base_attrs = [''__class__'', ''__dict__'', ''__doc__'', ''__repr__'']\<rparr>"

definition sample_proxy :: proxy where
  "sample_proxy = proxy_init sample_world (PRef 0)"

definition busy_world :: world where
  \<comment> \<open>a registry with two keys: samples 1 and 3 under one, sample 2 under the other\<close>
  "busy_world =
     sample_world\<lparr>seqs := (\<lambda>a. if a = 0 then [1, 3] else if a = 1 then [2] else []),
                  next_seq := 2,
                  profiling_data := [(''SampleClass.fast_method'', 0), (''Other.run'', 1)]\<rparr>"

text \<open>
  A method that calls itself once through the proxy that wraps its object:
  \<^verbatim>\<open>
  def nest(self, depth, fail):
      if depth == 0:
          proxy.nest(1, fail)
          if fail:
              raise RuntimeError("boom")
  \<close>
  where \<^verbatim>\<open>proxy\<close> is the proxy at address 0. At depth 1 the method returns at once,
  which is all that the inner call needs of it. (\<^verbatim>\<open>nest\<close> is not a member of the
  proxy's class, so the branch for such a member is never taken.)
\<close>

definition nest_inner :: code_table where
  "nest_inner c args w = (if c = 2 then (Inr PNone, w) else sample_code c args w)"

definition nest_code :: code_table where
  "nest_code c args w =
     (if c = 2
      then (case fst args of
              [PInt depth, PInt fail] \<Rightarrow>
                if depth = 0
                then (case call_through nest_inner 0 w ''nest'' ([PInt 1, PInt fail], []) of
                        OwnMember n \<Rightarrow> (Inl (TypeError n), w)
                      | Returned (Inl e, w1) \<Rightarrow> (Inl e, w1)
                      | Returned (Inr r, w1) \<Rightarrow>
                          (if fail = 1 then Inl (Raised ''boom'') else Inr PNone, w1))
                else (Inr PNone, w)
            | _ \<Rightarrow> (Inl (TypeError ''nest''), w))
      else sample_code c args w)"

section \<open>Supporting lemmas\<close>

subsection \<open>The dictionary and the store of sequences\<close>

lemma dd_getitem_present:
  "map_of (profiling_data w) key = Some a \<Longrightarrow> dd_getitem w key = (a, w)"
  by (simp add: dd_getitem_def)

lemma dd_getitem_absent:
  "map_of (profiling_data w) key = None \<Longrightarrow>
     dd_getitem w key =
       (next_seq w, w\<lparr>seqs := (seqs w)(next_seq w := []), next_seq := Suc (next_seq w),
                      profiling_data := profiling_data w @ [(key, next_seq w)]\<rparr>)"
  by (simp add: dd_getitem_def Let_def)

lemma dd_getitem_creates_key:
  "\<not> contains_key (profiling_data w) key \<Longrightarrow>
     contains_key (profiling_data (snd (dd_getitem w key))) key \<and>
     stored_samples (snd (dd_getitem w key)) key = []"
  by (simp add: contains_key_def dd_getitem_absent stored_samples_def map_add_def)


lemma map_of_distinct_snd:
  "distinct (map snd xs) \<Longrightarrow> map_of xs k = Some a \<Longrightarrow> map_of xs k' = Some a \<Longrightarrow> k = k'"
proof (induction xs)
  case Nil
  then show ?case by simp
next
  case (Cons x xs)
  obtain k0 a0 where x: "x = (k0, a0)" by (cases x)
  from Cons.prems(1) x have notin: "a0 \<notin> snd ` set xs" and d: "distinct (map snd xs)" by auto
  have no: "\<And>j. map_of xs j \<noteq> Some a0"
    using notin by (metis image_eqI map_of_SomeD snd_conv)
  show ?case
  proof (cases "k = k0")
    case True
    with Cons.prems(2) x have "a = a0" by simp
    with Cons.prems(3) x no show ?thesis using True by (auto split: if_splits)
  next
    case False
    with Cons.prems(2) x have 1: "map_of xs k = Some a" by simp
    with no have "a \<noteq> a0" by auto
    with Cons.prems(3) x have "k' \<noteq> k0" by auto
    with Cons.prems(3) x have "map_of xs k' = Some a" by simp
    with Cons.IH d 1 show ?thesis by blast
  qed
qed

lemma map_of_below:
  "list_all (\<lambda>a. a < n) (map snd xs) \<Longrightarrow> map_of xs k = Some a \<Longrightarrow> a < n"
  by (induction xs) (auto split: if_splits)

lemma stored_samples_record_other:
  assumes ok: "registry_ok w" and ne: "k \<noteq> key"
  shows "stored_samples (record_sample w key d) k = stored_samples w k"
proof (cases "map_of (profiling_data w) key")
  case None
  show ?thesis
  proof (cases "map_of (profiling_data w) k")
    case None2: None
    with None ne show ?thesis
      by (simp add: stored_samples_def record_sample_def dd_getitem_absent map_add_def)
  next
    case (Some b)
    with ok have "b < next_seq w" by (auto simp: registry_ok_def dest: map_of_below)
    with None Some ne show ?thesis
      by (simp add: stored_samples_def record_sample_def dd_getitem_absent map_add_def)
  qed
next
  case (Some a)
  show ?thesis
  proof (cases "map_of (profiling_data w) k")
    case None
    with Some show ?thesis
      by (simp add: stored_samples_def record_sample_def dd_getitem_present)
  next
    case Some2: (Some b)
    with Some ok ne have "b \<noteq> a" by (auto simp: registry_ok_def dest: map_of_distinct_snd)
    with Some Some2 show ?thesis
      by (simp add: stored_samples_def record_sample_def dd_getitem_present)
  qed
qed

lemma registry_ok_alloc:
  "registry_ok w \<Longrightarrow> registry_ok (w\<lparr>seqs := s, next_seq := Suc (next_seq w)\<rparr>)"
  by (auto simp: registry_ok_def list_all_iff)

lemma registry_ok_seqs:
  "registry_ok (w\<lparr>seqs := s\<rparr>) = registry_ok w"
  by (simp add: registry_ok_def)

lemma registry_ok_dd_getitem:
  assumes "registry_ok w"
  shows "registry_ok (snd (dd_getitem w key))"
proof (cases "map_of (profiling_data w) key")
  case None
  then have "key \<notin> fst ` set (profiling_data w)" by (simp add: map_of_eq_None_iff)
  with assms None show ?thesis
    by (auto simp: dd_getitem_absent registry_ok_def list_all_iff)
next
  case (Some a)
  with assms show ?thesis by (simp add: dd_getitem_present)
qed

lemma registry_ok_record_sample:
  "registry_ok w \<Longrightarrow> registry_ok (record_sample w key d)"
  using registry_ok_dd_getitem [of w key]
  by (simp add: record_sample_def split_beta registry_ok_seqs)

lemma returned_is_stored:
  "get_profiling_data w key = (r, w1) \<Longrightarrow> seqs w1 r = stored_samples w key"
  by (cases "map_of (profiling_data w) key")
     (auto simp: get_profiling_data_def contains_key_def dd_getitem_present np_array_def Let_def
        stored_samples_def)

lemma stored_samples_cong:
  assumes "registry_ok w" and "profiling_data w' = profiling_data w"
    and "\<And>a. a < next_seq w \<Longrightarrow> seqs w' a = seqs w a"
  shows "stored_samples w' k = stored_samples w k"
proof (cases "map_of (profiling_data w) k")
  case None
  with assms(2) show ?thesis by (simp add: stored_samples_def)
next
  case (Some a)
  with assms(1) have "a < next_seq w" by (auto simp: registry_ok_def dest: map_of_below)
  with assms(2,3) Some show ?thesis by (simp add: stored_samples_def)
qed

lemma stored_samples_eq:
  "profiling_data v = profiling_data w \<Longrightarrow> seqs v = seqs w \<Longrightarrow>
     stored_samples v k = stored_samples w k"
  by (simp add: stored_samples_def split: option.splits)

lemma registry_ok_eq:
  "profiling_data v = profiling_data w \<Longrightarrow> next_seq v = next_seq w \<Longrightarrow>
     registry_ok v = registry_ok w"
  by (simp add: registry_ok_def)



lemma record_sample_elsewhere:
  assumes "\<And>k a. map_of (profiling_data w) k = Some a \<Longrightarrow> a \<noteq> r" and "r < next_seq w"
  shows "seqs (record_sample w k d) r = seqs w r"
proof (cases "map_of (profiling_data w) k")
  case None
  with assms(2) show ?thesis by (simp add: record_sample_def dd_getitem_absent)
next
  case (Some a)
  with assms(1) have "a \<noteq> r" by blast
  with Some show ?thesis by (simp add: record_sample_def dd_getitem_present)
qed

subsection \<open>The read accessors allocate and change nothing else\<close>

lemma get_profiling_data_frame:
  "profiling_data (snd (get_profiling_data w key)) = profiling_data w"
  "next_seq (snd (get_profiling_data w key)) = Suc (next_seq w)"
  "fst (get_profiling_data w key) = next_seq w"
  "a \<noteq> next_seq w \<Longrightarrow> seqs (snd (get_profiling_data w key)) a = seqs w a"
  by (cases "map_of (profiling_data w) key";
      simp add: get_profiling_data_def contains_key_def dd_getitem_present np_array_def Let_def)+

lemma copy_items_frame:
  "copy_items xs w = (out, w') \<Longrightarrow>
     profiling_data w' = profiling_data w \<and> next_seq w' = next_seq w + length xs \<and>
     (\<forall>a. a < next_seq w \<longrightarrow> seqs w' a = seqs w a) \<and>
     map fst out = map fst xs \<and> map snd out = [next_seq w ..< next_seq w + length xs]"
proof (induction xs arbitrary: w out w')
  case Nil
  then show ?case by simp
next
  case (Cons x xs)
  obtain k a where x: "x = (k, a)" by (cases x)
  obtain r w1 where np: "np_array (seqs w a) w = (r, w1)" by (cases "np_array (seqs w a) w")
  obtain out2 w2 where rec: "copy_items xs w1 = (out2, w2)" by (cases "copy_items xs w1")
  from Cons.prems x np rec have out: "out = (k, r) # out2" and w': "w' = w2" by auto
  from np have r: "r = next_seq w" and n1: "next_seq w1 = Suc (next_seq w)"
    and p1: "profiling_data w1 = profiling_data w"
    and s1: "\<And>b. b \<noteq> next_seq w \<Longrightarrow> seqs w1 b = seqs w b"
    by (auto simp: np_array_def Let_def)
  from Cons.IH [OF rec] have ih: "profiling_data w2 = profiling_data w1"
    "next_seq w2 = next_seq w1 + length xs"
    "\<And>b. b < next_seq w1 \<Longrightarrow> seqs w2 b = seqs w1 b"
    "map fst out2 = map fst xs" "map snd out2 = [next_seq w1 ..< next_seq w1 + length xs]"
    by auto
  show ?case
    using out w' r n1 p1 s1 ih x by (auto simp: upt_rec [of "next_seq w"])
qed

lemma get_all_profiling_data_frame:
  "get_all_profiling_data w = (out, w') \<Longrightarrow>
     profiling_data w' = profiling_data w \<and> (\<forall>a. a < next_seq w \<longrightarrow> seqs w' a = seqs w a)"
  using copy_items_frame [of "profiling_data w" w out w']
  by (simp add: get_all_profiling_data_def)

lemma get_statistics_world:
  "snd (get_statistics w key) = snd (get_profiling_data w key)"
  by (simp add: get_statistics_def split_beta Let_def split: sum.splits)

lemma map_of_in_below:
  "list_all (\<lambda>a. a < n) (map snd xs) \<Longrightarrow> (k, a) \<in> set xs \<Longrightarrow> a < n"
  by (auto simp: list_all_iff)

lemma copy_items_contents:
  "copy_items xs w = (out, w') \<Longrightarrow> list_all (\<lambda>a. a < next_seq w) (map snd xs) \<Longrightarrow>
     (k, r) \<in> set out \<Longrightarrow>
     (\<exists>a. (k, a) \<in> set xs \<and> seqs w' r = seqs w a) \<and> next_seq w \<le> r \<and> r < next_seq w'"
proof (induction xs arbitrary: w out w')
  case Nil
  then show ?case by simp
next
  case (Cons x xs)
  obtain k0 a0 where x: "x = (k0, a0)" by (cases x)
  obtain r0 w1 where np: "np_array (seqs w a0) w = (r0, w1)" by (cases "np_array (seqs w a0) w")
  obtain out2 w2 where rec: "copy_items xs w1 = (out2, w2)" by (cases "copy_items xs w1")
  from Cons.prems(1) x np rec have out: "out = (k0, r0) # out2" and w': "w' = w2" by auto
  from np have r0: "r0 = next_seq w" and n1: "next_seq w1 = Suc (next_seq w)"
    and s1: "\<And>b. b \<noteq> next_seq w \<Longrightarrow> seqs w1 b = seqs w b"
    and s0: "seqs w1 (next_seq w) = seqs w a0"
    by (auto simp: np_array_def Let_def)
  from copy_items_frame [OF rec] have f2: "next_seq w2 = next_seq w1 + length xs"
    "\<And>b. b < next_seq w1 \<Longrightarrow> seqs w2 b = seqs w1 b" by auto
  from Cons.prems(2) x have below: "list_all (\<lambda>a. a < next_seq w) (map snd xs)" by simp
  then have below1: "list_all (\<lambda>a. a < next_seq w1) (map snd xs)"
    using n1 by (auto simp: list_all_iff)
  show ?case
  proof (cases "(k, r) = (k0, r0)")
    case True
    then have "seqs w' r = seqs w a0" using w' r0 n1 f2(2) [of "next_seq w"] s0 by simp
    with True x r0 n1 f2(1) w' show ?thesis by auto
  next
    case False
    with Cons.prems(3) out have "(k, r) \<in> set out2" by auto
    from Cons.IH [OF rec below1 this] obtain a where
      a: "(k, a) \<in> set xs" "seqs w2 r = seqs w1 a" "next_seq w1 \<le> r" "r < next_seq w2" by blast
    from a(1) below have "a < next_seq w" by (rule map_of_in_below [rotated])
    with s1 have "seqs w1 a = seqs w a" by simp
    with a w' n1 x show ?thesis by auto
  qed
qed

lemma overwrite_fresh:
  assumes ok: "registry_ok w" and pd: "profiling_data w1 = profiling_data w"
    and fr: "\<And>a. a < next_seq w \<Longrightarrow> seqs w1 a = seqs w a" and r: "next_seq w \<le> r"
  shows "stored_samples (overwrite w1 r ys) k = stored_samples w k"
  using ok
proof (rule stored_samples_cong)
  show "profiling_data (overwrite w1 r ys) = profiling_data w" by (simp add: overwrite_def pd)
  show "seqs (overwrite w1 r ys) a = seqs w a" if "a < next_seq w" for a
    using that r fr by (simp add: overwrite_def)
qed

subsection \<open>Clearing one key\<close>

lemma clear_absent:
  "\<not> contains_key (profiling_data w) key \<Longrightarrow> clear_profiling_data w (Some key) = w"
  by (simp add: clear_profiling_data_def)

lemma clear_present:
  "map_of (profiling_data w) key = Some a \<Longrightarrow>
     clear_profiling_data w (Some key) = w\<lparr>seqs := (seqs w)(a := [])\<rparr>"
  by (simp add: clear_profiling_data_def contains_key_def dd_getitem_present)

subsection \<open>The numpy reductions\<close>

lemma np_min_nonempty: "xs \<noteq> [] \<Longrightarrow> \<exists>lo. np_min xs = Inr lo"
  by (cases xs) simp_all

lemma np_max_nonempty: "xs \<noteq> [] \<Longrightarrow> \<exists>hi. np_max xs = Inr hi"
  by (cases xs) simp_all

lemma np_std_population: "np_std 0 xs = population_std xs"
  by (simp add: np_std_def np_var_def np_mean_def population_std_def Let_def)

text \<open>The divisor matters: with \<^verbatim>\<open>ddof = 1\<close> the result on the samples 1 and 3 is another.\<close>

lemma np_std_ddof_matters: "np_std 0 [1, 3] = 1 \<and> np_std 1 [1, 3] = sqrt 2"
  by (simp add: np_std_def np_var_def np_mean_def)

subsection \<open>The timed call\<close>


lemma timed_method_failure:
  assumes "call_value cd attr args (snd (perf_counter w)) = (Inl e, w2)"
  shows "timed_method cd self name attr args w = (Inl e, w2)"
  using assms by (simp add: timed_method_def perf_counter_def Let_def)

lemma timed_method_success:
  assumes "call_value cd attr args (snd (perf_counter w)) = (Inr r, w2)"
  shows "timed_method cd self name attr args w =
     (Inr r, record_sample (w2\<lparr>ticks := Suc (ticks w2)\<rparr>)
               (py_str w (class_name self) @ ''.'' @ name)
               (clock w2 (ticks w2) - clock w (ticks w)))"
  using assms by (simp add: timed_method_def perf_counter_def Let_def)







lemma proxy_read_not_found:
  "\<not> found_on_proxy self w name \<Longrightarrow> proxy_read self w name = proxy_getattr self w name"
  by (auto simp: found_on_proxy_def proxy_read_def)






subsection \<open>Writing through the proxy\<close>

lemma py_setattr_base_attrs:
  "py_setattr w t x v = Inr w1 \<Longrightarrow> base_attrs w1 = base_attrs w"
  by (cases t) (auto simp: py_setattr_def split: sum.splits)

lemma proxy_read_found_cong:
  "base_attrs w1 = base_attrs w \<Longrightarrow> found_on_proxy self w x \<Longrightarrow>
     proxy_read self w1 x = proxy_read self w x"
  by (auto simp: found_on_proxy_def proxy_read_def split: option.splits)

lemma found_on_proxy_base:
  "base_attrs w1 = base_attrs w \<Longrightarrow> found_on_proxy self w1 x = found_on_proxy self w x"
  by (simp add: found_on_proxy_def)

lemma proxy_read_forwarded_value:
  "\<not> found_on_proxy self w x \<Longrightarrow> py_getattr w (wrapped_obj self) x = Inr u \<Longrightarrow>
     proxy_read self w x = Inr (if callable u then Substitute x u else Plain u)"
  by (simp add: proxy_read_not_found proxy_getattr_def)

lemma py_setattr_plain:
  assumes "setattr_rule (objs w a) x v (attrs (objs w a)) = plain_setattr x v (attrs (objs w a))"
  shows "\<exists>w1. py_setattr w (PRef a) x v = Inr w1 \<and> py_getattr w1 (PRef a) x = Inr v"
  using assms by (simp add: py_setattr_def py_getattr_def plain_setattr_def)

lemma py_setattr_function:
  "\<exists>w1. py_setattr w (PFun c) x v = Inr w1 \<and> py_getattr w1 (PFun c) x = Inr v"
  by (simp add: py_setattr_def py_getattr_def)

lemma stores_plainly_setattr:
  assumes "stores_plainly w t x v"
  shows "\<exists>w1. py_setattr w t x v = Inr w1 \<and> py_getattr w1 t x = Inr v"
  using assms
  by (cases t) (simp_all add: stores_plainly_def py_setattr_plain py_setattr_function)

subsection \<open>The invariant holds wherever the module can take the registry\<close>

text \<open>
  An empty registry satisfies \<open>registry_ok\<close>, and every operation of the module keeps
  it: recording a sample (\<open>registry_ok_record_sample\<close> above), the three read
  accessors, clearing, and a call through the proxy, whether it succeeds or raises, as
  long as the bodies it runs keep it themselves (as bodies made of these operations do).
\<close>

lemma registry_ok_empty: "profiling_data w = [] \<Longrightarrow> registry_ok w"
  by (simp add: registry_ok_def)

lemma registry_ok_grow:
  "registry_ok w \<Longrightarrow> profiling_data v = profiling_data w \<Longrightarrow> next_seq w \<le> next_seq v \<Longrightarrow>
     registry_ok v"
  by (auto simp: registry_ok_def list_all_iff)

lemma registry_ok_get_profiling_data:
  "registry_ok w \<Longrightarrow> registry_ok (snd (get_profiling_data w key))"
  by (erule registry_ok_grow) (simp_all add: get_profiling_data_frame)

lemma registry_ok_get_all_profiling_data:
  "registry_ok w \<Longrightarrow> registry_ok (snd (get_all_profiling_data w))"
  using copy_items_frame [of "profiling_data w" w "fst (get_all_profiling_data w)" "snd (get_all_profiling_data w)"]
  by (auto elim!: registry_ok_grow simp: get_all_profiling_data_def)

lemma registry_ok_get_statistics:
  "registry_ok w \<Longrightarrow> registry_ok (snd (get_statistics w key))"
  by (simp add: get_statistics_world registry_ok_get_profiling_data)

lemma registry_ok_clear_profiling_data:
  "registry_ok w \<Longrightarrow> registry_ok (clear_profiling_data w key)"
proof (cases key)
  case None
  then show ?thesis by (simp add: clear_profiling_data_def registry_ok_def)
next
  case (Some k)
  assume ok: "registry_ok w"
  show ?thesis
  proof (cases "map_of (profiling_data w) k")
    case None
    with Some ok show ?thesis by (simp add: clear_absent contains_key_def)
  next
    case (Some a)
    with \<open>key = Some k\<close> ok show ?thesis by (simp add: clear_present registry_ok_seqs)
  qed
qed

lemma registry_ok_timed_method:
  assumes body: "\<And>c args v. registry_ok v \<Longrightarrow> registry_ok (snd (cd c args v))"
    and ok: "registry_ok w"
  shows "registry_ok (snd (timed_method cd self name attr args w))"
proof -
  let ?w0 = "snd (perf_counter w)"
  have ok0: "registry_ok ?w0" using ok by (simp add: registry_ok_def perf_counter_def)
  have ok2: "registry_ok (snd (call_value cd attr args ?w0))"
    using body [OF ok0] ok0 by (cases attr) (simp_all add: call_value_def)
  obtain res w2 where b: "call_value cd attr args ?w0 = (res, w2)"
    by (cases "call_value cd attr args ?w0")
  with ok2 have okw2: "registry_ok w2" by simp
  show ?thesis
  proof (cases res)
    case (Inl e)
    with b okw2 show ?thesis by (simp add: timed_method_failure)
  next
    case (Inr r)
    have "registry_ok (w2\<lparr>ticks := Suc (ticks w2)\<rparr>)" using okw2 by (simp add: registry_ok_def)
    then show ?thesis
      using b Inr by (simp add: timed_method_success registry_ok_record_sample)
  qed
qed

lemma registry_ok_call_through:
  assumes body: "\<And>c args v. registry_ok v \<Longrightarrow> registry_ok (snd (cd c args v))"
    and ok: "registry_ok w"
    and run: "call_through cd p w name args = Returned (res, w1)"
  shows "registry_ok w1"
proof (cases "proxy_read (proxies w p) w name")
  case (Inl e)
  with run ok show ?thesis by (simp add: call_through_def)
next
  case (Inr r)
  show ?thesis
  proof (cases r)
    case (Plain v)
    have "registry_ok (snd (call_value cd v args w))"
      using body [OF ok] ok by (cases v) (simp_all add: call_value_def)
    with run Inr Plain show ?thesis by (auto simp: call_through_def)
  next
    case (Substitute n attr)
    from registry_ok_timed_method [of cd w "proxies w p" n attr args, OF body ok]
    show ?thesis using run Inr Substitute by (auto simp: call_through_def)
  next
    case (Member n)
    with run Inr show ?thesis by (simp add: call_through_def)
  qed
qed

subsection \<open>The concrete worlds\<close>

text \<open>
  The body \<open>nest_code\<close> is written with the table \<open>nest_inner\<close> for its inner call; at
  depth 1 the two tables agree, so the body is the method of the Python text, which
  calls itself through the proxy.
\<close>

lemma nest_code_depth_1:
  "nest_code c ([PInt 1, PInt f], []) w = nest_inner c ([PInt 1, PInt f], []) w"
  by (simp add: nest_code_def nest_inner_def)

lemma nest_code_inner_call:
  "call_through nest_code p w name ([PInt 1, PInt f], []) =
   call_through nest_inner p w name ([PInt 1, PInt f], [])"
proof -
  have cv: "call_value nest_code attr ([PInt 1, PInt f], []) v =
      call_value nest_inner attr ([PInt 1, PInt f], []) v" for attr v
    by (cases attr) (simp_all add: call_value_def nest_code_depth_1)
  have tm: "timed_method nest_code self n attr ([PInt 1, PInt f], []) v =
      timed_method nest_inner self n attr ([PInt 1, PInt f], []) v" for self n attr v
    by (simp add: timed_method_def cv)
  show ?thesis
    by (simp add: call_through_def cv tm split: sum.splits attr_result.splits)
qed

lemma nest_code_body:
  "nest_code 2 ([PInt 0, PInt f], []) w =
     (case call_through nest_code 0 w ''nest'' ([PInt 1, PInt f], []) of
        OwnMember n \<Rightarrow> (Inl (TypeError n), w)
      | Returned (Inl e, w1) \<Rightarrow> (Inl e, w1)
      | Returned (Inr r, w1) \<Rightarrow> (if f = 1 then Inl (Raised ''boom'') else Inr PNone, w1))"
  by (simp add: nest_code_def nest_code_inner_call)


section \<open>The claims\<close>

subsection \<open>Reading and writing attributes through the proxy\<close>

text \<open>
  C1, as amended. \<^verbatim>\<open>__getattr__\<close> runs only for a name that the ordinary lookup does not
  find on the proxy: not one of its own attributes (\<^verbatim>\<open>_wrapped_obj\<close>, \<^verbatim>\<open>_class_name\<close>
  and whatever else was stored on it) and not an attribute of its class. For every such
  name the read is resolved on the wrapped target: if the target has no attribute of
  that name, the read fails with the very error of the target's own lookup; otherwise it
  gives the target's value, or the timed substitute when that value is callable.
\<close>

theorem proxy_read_forwards:
  assumes "\<not> found_on_proxy self w name"
  shows "proxy_read self w name = proxy_getattr self w name \<and>
         (\<forall>e. py_getattr w (wrapped_obj self) name = Inl e \<longrightarrow> proxy_read self w name = Inl e) \<and>
         (\<forall>v. py_getattr w (wrapped_obj self) name = Inr v \<longrightarrow>
              proxy_read self w name = Inr (if callable v then Substitute name v else Plain v))"
  using assms
  by (auto simp: found_on_proxy_def proxy_read_def proxy_getattr_def)

theorem proxy_read_forwards_witness:
  "found_on_proxy sample_proxy sample_world ''missing'' = False \<and>
   py_getattr sample_world (wrapped_obj sample_proxy) ''missing'' =
     Inl (AttributeError ''SampleClass'' ''missing'') \<and>
   proxy_read sample_proxy sample_world ''missing'' = Inl (AttributeError ''SampleClass'' ''missing'') \<and>
   found_on_proxy sample_proxy sample_world ''counter'' = False \<and>
   py_getattr sample_world (wrapped_obj sample_proxy) ''counter'' = Inr (PInt 0) \<and>
   proxy_read sample_proxy sample_world ''counter'' = Inr (Plain (PInt 0))"
proof -
  have h1: "\<not> found_on_proxy sample_proxy sample_world ''missing''"
    and h2: "\<not> found_on_proxy sample_proxy sample_world ''counter''"
    by (simp_all add: found_on_proxy_def own_attr_def sample_proxy_def proxy_init_def
        class_attrs_def sample_world_def)
  have g1: "py_getattr sample_world (wrapped_obj sample_proxy) ''missing'' =
     Inl (AttributeError ''SampleClass'' ''missing'')"
    and g2: "py_getattr sample_world (wrapped_obj sample_proxy) ''counter'' = Inr (PInt 0)"
    by (simp_all add: py_getattr_def sample_proxy_def proxy_init_def py_type_name_def
        sample_world_def sample_obj_def)
  from proxy_read_forwards [OF h1] g1
  have r1: "proxy_read sample_proxy sample_world ''missing'' =
      Inl (AttributeError ''SampleClass'' ''missing'')" by blast
  from proxy_read_forwards [OF h2] g2
  have "proxy_read sample_proxy sample_world ''counter'' =
      Inr (if callable (PInt 0) then Substitute ''counter'' (PInt 0) else Plain (PInt 0))"
    by blast
  then have r2: "proxy_read sample_proxy sample_world ''counter'' = Inr (Plain (PInt 0))"
    by (simp add: callable_def)
  show ?thesis using h1 h2 g1 g2 r1 r2 by simp
qed

text \<open>
  The claim as it is written speaks of every attribute name. It fails for
  \<^verbatim>\<open>_class_name\<close>: an instance of \<^verbatim>\<open>SampleClass\<close> has no such attribute, yet reading
  it through the proxy does not fail and gives the proxy's own field, as
  \<^verbatim>\<open>self._class_name\<close> does inside \<^verbatim>\<open>timed_method\<close>.
\<close>

theorem proxy_read_own_counterexample:
  "py_getattr sample_world (wrapped_obj sample_proxy) ''_class_name'' =
     Inl (AttributeError ''SampleClass'' ''_class_name'') \<and>
   proxy_read sample_proxy sample_world ''_class_name'' = Inr (Plain (PStr ''SampleClass''))"
  by (simp add: py_getattr_def proxy_read_def own_attr_def sample_proxy_def proxy_init_def
      py_type_name_def sample_world_def sample_obj_def)

text \<open>
  C6, as amended. For every name \<open>x\<close> that does not start with an underscore and every
  value \<open>v\<close>, the assignment \<^verbatim>\<open>proxy.x = v\<close> does exactly what
  \<^verbatim>\<open>setattr(target, x, v)\<close> does and leaves the proxy as it is: when the target refuses
  the write, its error is passed on; when it accepts, the world is as the target's
  \<^verbatim>\<open>setattr\<close> left it, and the reads \<^verbatim>\<open>proxy.x\<close> and \<^verbatim>\<open>target.x\<close> are made there. When
  the target stores the value plainly (an ordinary attribute of an object, any attribute
  of a function), the target's own attribute \<open>x\<close> is \<open>v\<close> afterwards, whatever \<open>x\<close> and
  \<open>v\<close> are; the read \<^verbatim>\<open>proxy.x\<close> then gives \<open>v\<close> when \<open>x\<close> is not found on the proxy
  itself and \<open>v\<close> is not callable, the timed substitute that wraps \<open>v\<close> when \<open>v\<close> is
  callable, and what the proxy itself holds under \<open>x\<close> when \<open>x\<close> is found there.
\<close>

theorem write_is_forwarded:
  assumes "\<not> starts_with_underscore x"
  shows "(\<forall>e. py_setattr w (wrapped_obj self) x v = Inl e \<longrightarrow> proxy_setattr self w x v = Inl e) \<and>
         (\<forall>w1. py_setattr w (wrapped_obj self) x v = Inr w1 \<longrightarrow>
            proxy_setattr self w x v = Inr (self, w1) \<and>
            write_then_read self w x v =
              Inr (proxy_read self w1 x, py_getattr w1 (wrapped_obj self) x)) \<and>
         (stores_plainly w (wrapped_obj self) x v \<longrightarrow>
            write_then_read self w x v =
              Inr (if found_on_proxy self w x then proxy_read self w x
                   else Inr (if callable v then Substitute x v else Plain v),
                   Inr v))"
proof -
  have 1: "proxy_setattr self w x v = Inl e" if "py_setattr w (wrapped_obj self) x v = Inl e" for e
    using assms that by (simp add: proxy_setattr_def)
  have 2: "proxy_setattr self w x v = Inr (self, w1) \<and>
      write_then_read self w x v = Inr (proxy_read self w1 x, py_getattr w1 (wrapped_obj self) x)"
    if "py_setattr w (wrapped_obj self) x v = Inr w1" for w1
    using assms that by (simp add: proxy_setattr_def write_then_read_def)
  have 3: "write_then_read self w x v =
      Inr (if found_on_proxy self w x then proxy_read self w x
           else Inr (if callable v then Substitute x v else Plain v), Inr v)"
    if sp: "stores_plainly w (wrapped_obj self) x v"
  proof -
    from stores_plainly_setattr [OF sp] obtain w1 where
      s: "py_setattr w (wrapped_obj self) x v = Inr w1" and
      g: "py_getattr w1 (wrapped_obj self) x = Inr v" by blast
    have b: "base_attrs w1 = base_attrs w" using s by (rule py_setattr_base_attrs)
    have wr: "write_then_read self w x v = Inr (proxy_read self w1 x, Inr v)"
      using 2 [OF s] g by simp
    show ?thesis
    proof (cases "found_on_proxy self w x")
      case True
      with wr proxy_read_found_cong [OF b True] show ?thesis by simp
    next
      case False
      then have "\<not> found_on_proxy self w1 x" by (simp add: found_on_proxy_base [OF b])
      from proxy_read_forwarded_value [OF this g] wr False show ?thesis by simp
    qed
  qed
  show ?thesis using 1 2 3 by blast
qed

theorem write_is_forwarded_witness:
  "starts_with_underscore ''counter'' = False \<and>
   stores_plainly sample_world (wrapped_obj sample_proxy) ''counter'' (PInt 5) \<and>
   found_on_proxy sample_proxy sample_world ''counter'' = False \<and>
   write_then_read sample_proxy sample_world ''counter'' (PInt 5) =
     Inr (Inr (Plain (PInt 5)), Inr (PInt 5)) \<and>
   py_setattr sample_world (wrapped_obj sample_proxy) ''ro'' (PInt 2) =
     Inl (AttributeError ''SampleClass'' ''ro'') \<and>
   proxy_setattr sample_proxy sample_world ''ro'' (PInt 2) = Inl (AttributeError ''SampleClass'' ''ro'')"
proof -
  have h: "\<not> starts_with_underscore ''counter''" "\<not> starts_with_underscore ''ro''"
    by (simp_all add: starts_with_underscore_def)
  have sp: "stores_plainly sample_world (wrapped_obj sample_proxy) ''counter'' (PInt 5)"
    by (simp add: stores_plainly_def sample_proxy_def proxy_init_def sample_world_def sample_obj_def)
  have nf: "\<not> found_on_proxy sample_proxy sample_world ''counter''"
    by (simp add: found_on_proxy_def own_attr_def sample_proxy_def proxy_init_def
        class_attrs_def sample_world_def)
  have ro: "py_setattr sample_world (wrapped_obj sample_proxy) ''ro'' (PInt 2) =
     Inl (AttributeError ''SampleClass'' ''ro'')"
    by (simp add: py_setattr_def sample_proxy_def proxy_init_def sample_world_def sample_obj_def)
  from write_is_forwarded [OF h(1), of sample_world sample_proxy "PInt 5"] sp nf
  have a: "write_then_read sample_proxy sample_world ''counter'' (PInt 5) =
     Inr (Inr (Plain (PInt 5)), Inr (PInt 5))"
    by (simp add: callable_def)
  from write_is_forwarded [OF h(2), of sample_world sample_proxy "PInt 2"] ro
  have b: "proxy_setattr sample_proxy sample_world ''ro'' (PInt 2) =
     Inl (AttributeError ''SampleClass'' ''ro'')" by blast
  from h(1) have h': "starts_with_underscore ''counter'' = False" by simp
  from nf have nf': "found_on_proxy sample_proxy sample_world ''counter'' = False" by simp
  from h' sp nf' a ro b show ?thesis by blast
qed

text \<open>
  The claim as it is written speaks of every value, every name without the reserved
  prefix and every target. It fails for a callable value: after \<^verbatim>\<open>proxy.x = f\<close> the
  target's attribute is \<open>f\<close>, but \<^verbatim>\<open>proxy.x\<close> is the substitute \<^verbatim>\<open>timed_method\<close>, not
  \<open>f\<close>. It fails for the name of a member of the proxy's class: after
  \<^verbatim>\<open>proxy.get_statistics = 7\<close> the target's attribute is 7, but
  \<^verbatim>\<open>proxy.get_statistics\<close> is still the class method. And it fails for an attribute that
  the target does not let be set: \<^verbatim>\<open>proxy.ro = 2\<close> raises the target's error and the
  target's \<^verbatim>\<open>ro\<close> stays 1.
\<close>

theorem write_then_read_counterexample:
  "starts_with_underscore ''x'' = False \<and>
   write_then_read sample_proxy sample_world ''x'' (PFun 0) =
     Inr (Inr (Substitute ''x'' (PFun 0)), Inr (PFun 0)) \<and>
   starts_with_underscore ''get_statistics'' = False \<and>
   write_then_read sample_proxy sample_world ''get_statistics'' (PInt 7) =
     Inr (Inr (Member ''get_statistics''), Inr (PInt 7)) \<and>
   starts_with_underscore ''ro'' = False \<and>
   py_getattr sample_world (wrapped_obj sample_proxy) ''ro'' = Inr (PInt 1) \<and>
   write_then_read sample_proxy sample_world ''ro'' (PInt 2) =
     Inl (AttributeError ''SampleClass'' ''ro'')"
  by (simp add: starts_with_underscore_def write_then_read_def proxy_setattr_def py_setattr_def
      proxy_read_def proxy_getattr_def py_getattr_def own_attr_def callable_def class_attrs_def
      sample_proxy_def proxy_init_def sample_world_def sample_obj_def plain_setattr_def)

subsection \<open>Timed calls\<close>

text \<open>
  C2, as amended. When the wrapped callable raises, the substitute invocable
  \<open>timed_method\<close> raises the same exception and appends nothing itself: the world after
  the failed call is exactly the world as the body of the callable left it. So when the
  body has left the registry as it was, the sample sequence of every key, and of the
  method's key in particular, is the same after the failed call as before it.
\<close>

theorem failed_call_appends_nothing:
  assumes "call_value cd attr args (snd (perf_counter w)) = (Inl e, w2)"
  shows "timed_method cd self name attr args w = (Inl e, w2) \<and>
         (profiling_data w2 = profiling_data w \<and> seqs w2 = seqs w \<longrightarrow>
            (\<forall>k. stored_samples (snd (timed_method cd self name attr args w)) k =
                  stored_samples w k))"
  using timed_method_failure [OF assms, of self name]
  by (simp add: stored_samples_def split: option.splits)

theorem failed_call_appends_nothing_witness:
  "call_value sample_code (PFun 1) ([], []) (snd (perf_counter busy_world)) =
     (Inl (Raised ''boom''), snd (perf_counter busy_world)) \<and>
   fst (timed_method sample_code sample_proxy ''failing'' (PFun 1) ([], []) busy_world) =
     Inl (Raised ''boom'') \<and>
   stored_samples (snd (timed_method sample_code sample_proxy ''failing'' (PFun 1) ([], []) busy_world))
     ''SampleClass.fast_method'' = [1, 3] \<and>
   stored_samples busy_world ''SampleClass.fast_method'' = [1, 3] \<and>
   stored_samples (snd (timed_method sample_code sample_proxy ''failing'' (PFun 1) ([], []) busy_world))
     ''SampleClass.failing'' = []"
proof -
  let ?w0 = "snd (perf_counter busy_world)"
  have h: "call_value sample_code (PFun 1) ([], []) ?w0 = (Inl (Raised ''boom''), ?w0)"
    by (simp add: call_value_def sample_code_def)
  have f: "profiling_data ?w0 = profiling_data busy_world \<and> seqs ?w0 = seqs busy_world"
    by (simp add: perf_counter_def)
  have s: "stored_samples busy_world ''SampleClass.fast_method'' = [1, 3]"
    "stored_samples busy_world ''SampleClass.failing'' = []"
    by (simp_all add: stored_samples_def busy_world_def sample_world_def)
  let ?t = "timed_method sample_code sample_proxy ''failing'' (PFun 1) ([], []) busy_world"
  from failed_call_appends_nothing [OF h, of sample_proxy "''failing''"] f
  have t: "?t = (Inl (Raised ''boom''), ?w0)"
    and k: "\<And>k. stored_samples (snd ?t) k = stored_samples busy_world k" by blast+
  have r: "fst ?t = Inl (Raised ''boom'')" by (simp only: t fst_conv)
  have k1: "stored_samples (snd ?t) ''SampleClass.fast_method'' = [1, 3]"
    and k2: "stored_samples (snd ?t) ''SampleClass.failing'' = []"
    by (simp_all only: k s)
  from h r k1 s(1) k2 show ?thesis by blast
qed

text \<open>
  The claim as it is written speaks of every invocation that fails. It fails for a
  method that calls through the proxy before it raises: the inner call of \<^verbatim>\<open>nest\<close>
  completes and is recorded under \<^verbatim>\<open>SampleClass.nest\<close>, then the outer call raises, and
  the sample sequence of that key has gone from empty to one sample across a failed
  call.
\<close>

theorem failed_call_nested_counterexample:
  "fst (call_value nest_code (PFun 2) ([PInt 0, PInt 1], []) (snd (perf_counter sample_world))) =
     Inl (Raised ''boom'') \<and>
   fst (timed_method nest_code (proxies sample_world 0) ''nest'' (PFun 2) ([PInt 0, PInt 1], [])
          sample_world) = Inl (Raised ''boom'') \<and>
   stored_samples sample_world ''SampleClass.nest'' = [] \<and>
   stored_samples
     (snd (timed_method nest_code (proxies sample_world 0) ''nest'' (PFun 2) ([PInt 0, PInt 1], [])
             sample_world)) ''SampleClass.nest'' = [1]"
  by (simp add: timed_method_def perf_counter_def call_value_def nest_code_def nest_inner_def
      call_through_def proxy_read_def own_attr_def class_attrs_def proxy_getattr_def
      py_getattr_def callable_def py_str_def record_sample_def dd_getitem_def stored_samples_def
      sample_world_def sample_obj_def Let_def)







subsection \<open>The registry and its statistics\<close>

text \<open>
  C4. For every key whose sample sequence is empty, and so for every key the registry
  has never recorded, \<open>get_statistics\<close> does not fail and returns the zero record.
\<close>

theorem empty_statistics:
  assumes "\<not> contains_key (profiling_data w) key \<or> stored_samples w key = []"
  shows "fst (get_statistics w key) = Inr zero_stats"
proof -
  have "stored_samples w key = []"
    using assms by (auto simp: contains_key_def stored_samples_def)
  then show ?thesis
    using returned_is_stored [of w key "fst (get_profiling_data w key)" "snd (get_profiling_data w key)"]
    by (simp add: get_statistics_def split_beta)
qed

theorem empty_statistics_witness:
  "\<not> contains_key (profiling_data sample_world) ''NonExistent.method'' \<and>
   fst (get_statistics sample_world ''NonExistent.method'') = Inr zero_stats"
proof -
  have h: "\<not> contains_key (profiling_data sample_world) ''NonExistent.method''"
    by (simp add: contains_key_def sample_world_def)
  then have "\<not> contains_key (profiling_data sample_world) ''NonExistent.method'' \<or>
    stored_samples sample_world ''NonExistent.method'' = []" by simp
  from empty_statistics [OF this] h show ?thesis by simp
qed

text \<open>
  C5. In every registry that satisfies the invariant, \<open>clear_profiling_data\<close> with a
  key leaves the dictionary as it is, so a key that was present stays present; the
  key's sample sequence is empty afterwards, and \<open>get_profiling_data\<close> for it returns an
  empty array; the sample sequence of every other key is unchanged; and for a key the
  registry does not have, nothing changes at all.
\<close>

theorem clear_one_key:
  assumes "registry_ok w"
  shows "profiling_data (clear_profiling_data w (Some key)) = profiling_data w \<and>
         stored_samples (clear_profiling_data w (Some key)) key = [] \<and>
         seqs (snd (get_profiling_data (clear_profiling_data w (Some key)) key))
              (fst (get_profiling_data (clear_profiling_data w (Some key)) key)) = [] \<and>
         (\<forall>k. k \<noteq> key \<longrightarrow>
              stored_samples (clear_profiling_data w (Some key)) k = stored_samples w k) \<and>
         (\<not> contains_key (profiling_data w) key \<longrightarrow> clear_profiling_data w (Some key) = w)"
proof (cases "map_of (profiling_data w) key")
  case None
  then have w: "clear_profiling_data w (Some key) = w"
    by (simp add: clear_absent contains_key_def)
  have s: "stored_samples w key = []" using None by (simp add: stored_samples_def)
  show ?thesis
    using w s returned_is_stored [of w key "fst (get_profiling_data w key)" "snd (get_profiling_data w key)"]
    by simp
next
  case (Some a)
  let ?w = "clear_profiling_data w (Some key)"
  have w: "?w = w\<lparr>seqs := (seqs w)(a := [])\<rparr>" using Some by (rule clear_present)
  have 1: "profiling_data ?w = profiling_data w" by (simp add: w)
  have 2: "stored_samples ?w key = []" using Some by (simp add: w stored_samples_def)
  have 3: "seqs (snd (get_profiling_data ?w key)) (fst (get_profiling_data ?w key)) = []"
    using 2 returned_is_stored [of ?w key "fst (get_profiling_data ?w key)" "snd (get_profiling_data ?w key)"]
    by simp
  have 4: "stored_samples ?w k = stored_samples w k" if "k \<noteq> key" for k
  proof (cases "map_of (profiling_data w) k")
    case None
    then show ?thesis by (simp add: w stored_samples_def)
  next
    case Some2: (Some b)
    with Some assms that have "b \<noteq> a" by (auto simp: registry_ok_def dest: map_of_distinct_snd)
    with Some2 show ?thesis by (simp add: w stored_samples_def)
  qed
  have 5: "contains_key (profiling_data w) key" using Some by (simp add: contains_key_def)
  show ?thesis using 1 2 3 4 5 by simp
qed

theorem clear_one_key_witness:
  "registry_ok busy_world \<and>
   profiling_data (clear_profiling_data busy_world (Some ''Other.run'')) = profiling_data busy_world \<and>
   stored_samples (clear_profiling_data busy_world (Some ''Other.run'')) ''Other.run'' = [] \<and>
   stored_samples busy_world ''Other.run'' = [2] \<and>
   stored_samples (clear_profiling_data busy_world (Some ''Other.run'')) ''SampleClass.fast_method'' = [1, 3] \<and>
   clear_profiling_data busy_world (Some ''NonExistent.method'') = busy_world"
proof -
  have h: "registry_ok busy_world"
    by (simp add: registry_ok_def busy_world_def sample_world_def)
  have c: "\<not> contains_key (profiling_data busy_world) ''NonExistent.method''"
    by (simp add: contains_key_def busy_world_def sample_world_def)
  have s: "stored_samples busy_world ''Other.run'' = [2]"
    "stored_samples busy_world ''SampleClass.fast_method'' = [1, 3]"
    by (simp_all add: stored_samples_def busy_world_def sample_world_def)
  from clear_one_key [OF h, of "''Other.run''"] clear_one_key [OF h, of "''NonExistent.method''"] h c s
  show ?thesis by simp
qed

text \<open>
  C8. For every key with a non-empty sample sequence \<open>get_statistics\<close> succeeds; its
  \<open>std\<close> is the population standard deviation of the samples (the variance divides by
  \<open>N\<close>), its \<open>count\<close> is the length of the array that \<open>get_profiling_data\<close> returns,
  and its \<open>total\<close> is the sum of the samples.
\<close>

theorem statistics_of_samples:
  assumes "stored_samples w key \<noteq> []"
  shows "\<exists>st. fst (get_statistics w key) = Inr st \<and>
           std st = population_std (stored_samples w key) \<and>
           count st = length (seqs (snd (get_profiling_data w key)) (fst (get_profiling_data w key))) \<and>
           count st = length (stored_samples w key) \<and>
           total st = sum_list (stored_samples w key)"
proof -
  let ?data = "seqs (snd (get_profiling_data w key)) (fst (get_profiling_data w key))"
  have d: "?data = stored_samples w key"
    using returned_is_stored [of w key "fst (get_profiling_data w key)" "snd (get_profiling_data w key)"]
    by simp
  with assms have ne: "?data \<noteq> []" by simp
  from np_min_nonempty [OF ne] obtain lo where lo: "np_min ?data = Inr lo" by blast
  from np_max_nonempty [OF ne] obtain hi where hi: "np_max ?data = Inr hi" by blast
  show ?thesis
    using ne lo hi d
    by (simp add: get_statistics_def split_beta Let_def np_std_population np_sum_def)
qed

theorem statistics_of_samples_witness:
  "stored_samples busy_world ''SampleClass.fast_method'' = [1, 3] \<and>
   (\<exists>st. fst (get_statistics busy_world ''SampleClass.fast_method'') = Inr st \<and>
      std st = 1 \<and> count st = 2 \<and> total st = 4)"
proof -
  have s: "stored_samples busy_world ''SampleClass.fast_method'' = [1, 3]"
    by (simp add: stored_samples_def busy_world_def sample_world_def)
  then have h: "stored_samples busy_world ''SampleClass.fast_method'' \<noteq> []" by simp
  have p: "population_std [1, 3] = 1"
    by (simp add: population_std_def)
  from statistics_of_samples [OF h] s p show ?thesis by auto
qed

text \<open>
  C9. In every registry that satisfies the invariant and for every key,
  \<open>get_profiling_data\<close>, \<open>get_all_profiling_data\<close> and \<open>get_statistics\<close> leave the
  dictionary of the registry as it is (no key is created, although indexing the
  \<^verbatim>\<open>defaultdict\<close> would create one) and leave the sample sequence of every key unchanged.
\<close>

theorem reads_leave_registry:
  assumes "registry_ok w"
  shows "profiling_data (snd (get_profiling_data w key)) = profiling_data w \<and>
         (\<forall>k. stored_samples (snd (get_profiling_data w key)) k = stored_samples w k) \<and>
         profiling_data (snd (get_all_profiling_data w)) = profiling_data w \<and>
         (\<forall>k. stored_samples (snd (get_all_profiling_data w)) k = stored_samples w k) \<and>
         profiling_data (snd (get_statistics w key)) = profiling_data w \<and>
         (\<forall>k. stored_samples (snd (get_statistics w key)) k = stored_samples w k)"
proof -
  have 1: "profiling_data (snd (get_profiling_data w key)) = profiling_data w"
    by (rule get_profiling_data_frame)
  have 2: "stored_samples (snd (get_profiling_data w key)) k = stored_samples w k" for k
    using assms 1 by (rule stored_samples_cong) (simp add: get_profiling_data_frame)
  have 3: "profiling_data (snd (get_all_profiling_data w)) = profiling_data w"
    using get_all_profiling_data_frame [of w "fst (get_all_profiling_data w)" "snd (get_all_profiling_data w)"]
    by simp
  have 4: "stored_samples (snd (get_all_profiling_data w)) k = stored_samples w k" for k
    using assms 3
    by (rule stored_samples_cong)
       (use get_all_profiling_data_frame [of w "fst (get_all_profiling_data w)" "snd (get_all_profiling_data w)"] in simp)
  show ?thesis using 1 2 3 4 by (simp add: get_statistics_world)
qed

theorem reads_leave_registry_witness:
  "registry_ok busy_world \<and>
   profiling_data (snd (get_profiling_data busy_world ''NonExistent.method'')) =
     [(''SampleClass.fast_method'', 0), (''Other.run'', 1)] \<and>
   profiling_data (snd (get_all_profiling_data busy_world)) =
     [(''SampleClass.fast_method'', 0), (''Other.run'', 1)] \<and>
   profiling_data (snd (get_statistics busy_world ''NonExistent.method'')) =
     [(''SampleClass.fast_method'', 0), (''Other.run'', 1)] \<and>
   stored_samples (snd (get_all_profiling_data busy_world)) ''SampleClass.fast_method'' = [1, 3] \<and>
   stored_samples (snd (get_statistics busy_world ''NonExistent.method'')) ''Other.run'' = [2]"
proof -
  have h: "registry_ok busy_world"
    by (simp add: registry_ok_def busy_world_def sample_world_def)
  have s: "stored_samples busy_world ''Other.run'' = [2]"
    "stored_samples busy_world ''SampleClass.fast_method'' = [1, 3]"
    "profiling_data busy_world = [(''SampleClass.fast_method'', 0), (''Other.run'', 1)]"
    by (simp_all add: stored_samples_def busy_world_def sample_world_def)
  from reads_leave_registry [OF h, of "''NonExistent.method''"] h s
  show ?thesis by simp
qed

text \<open>
  C10. The arrays that \<open>get_profiling_data\<close> and \<open>get_all_profiling_data\<close> return are
  copies: whatever is written into a returned array, the sample sequence of every key of
  the registry stays what it was; and whatever sample is recorded after the read, under
  whatever key, the returned array still holds the samples its key had at the read.
\<close>

theorem returned_arrays_are_copies:
  assumes "registry_ok w"
  shows "(\<forall>ys k. stored_samples (overwrite (snd (get_profiling_data w key))
                     (fst (get_profiling_data w key)) ys) k = stored_samples w k) \<and>
         (\<forall>k d. seqs (record_sample (snd (get_profiling_data w key)) k d)
                     (fst (get_profiling_data w key)) = stored_samples w key) \<and>
         (\<forall>(kk, r) \<in> set (fst (get_all_profiling_data w)).
            (\<forall>ys k. stored_samples (overwrite (snd (get_all_profiling_data w)) r ys) k =
                      stored_samples w k) \<and>
            (\<forall>k d. seqs (record_sample (snd (get_all_profiling_data w)) k d) r =
                      stored_samples w kk))"
proof -
  let ?r = "fst (get_profiling_data w key)" and ?w1 = "snd (get_profiling_data w key)"
  have below: "a < next_seq w" if "map_of (profiling_data w) k = Some a" for k a
    using assms that by (auto simp: registry_ok_def dest: map_of_below)
  have 1: "stored_samples (overwrite ?w1 ?r ys) k = stored_samples w k" for ys k
    using assms by (rule overwrite_fresh) (simp_all add: get_profiling_data_frame)
  have 2: "seqs (record_sample ?w1 k d) ?r = stored_samples w key" for k d
  proof -
    have "seqs (record_sample ?w1 k d) ?r = seqs ?w1 ?r"
      by (rule record_sample_elsewhere)
         (use below in \<open>auto simp: get_profiling_data_frame\<close>)
    then show ?thesis
      using returned_is_stored [of w key ?r ?w1] by simp
  qed
  let ?out = "fst (get_all_profiling_data w)" and ?w2 = "snd (get_all_profiling_data w)"
  have ci: "copy_items (profiling_data w) w = (?out, ?w2)"
    by (simp add: get_all_profiling_data_def)
  have fr: "profiling_data ?w2 = profiling_data w" "\<And>a. a < next_seq w \<Longrightarrow> seqs ?w2 a = seqs w a"
    using copy_items_frame [OF ci] by auto
  have la: "list_all (\<lambda>a. a < next_seq w) (map snd (profiling_data w))"
    using assms by (simp add: registry_ok_def)
  have 3: "stored_samples (overwrite ?w2 r ys) k = stored_samples w k"
    and 4: "seqs (record_sample ?w2 k d) r = stored_samples w kk"
    if "(kk, r) \<in> set ?out" for kk r ys k d
  proof -
    from copy_items_contents [OF ci la that] obtain a where
      a: "(kk, a) \<in> set (profiling_data w)" "seqs ?w2 r = seqs w a" "next_seq w \<le> r" "r < next_seq ?w2"
      by blast
    show "stored_samples (overwrite ?w2 r ys) k = stored_samples w k"
      using assms fr a(3) by (rule overwrite_fresh)
    have "map_of (profiling_data w) kk = Some a"
      using assms a(1) by (simp add: registry_ok_def)
    then have st: "stored_samples w kk = seqs w a" by (simp add: stored_samples_def)
    have "seqs (record_sample ?w2 k d) r = seqs ?w2 r"
    proof (rule record_sample_elsewhere)
      show "r < next_seq ?w2" by (rule a(4))
      show "b \<noteq> r" if "map_of (profiling_data ?w2) j = Some b" for j b
        using that below [of j b] a(3) by (simp add: fr)
    qed
    with a(2) st show "seqs (record_sample ?w2 k d) r = stored_samples w kk" by simp
  qed
  show ?thesis using 1 2 3 4 by blast
qed

theorem returned_arrays_are_copies_witness:
  "registry_ok busy_world \<and>
   fst (get_profiling_data busy_world ''Other.run'') = 2 \<and>
   stored_samples (overwrite (snd (get_profiling_data busy_world ''Other.run'')) 2 [7])
     ''Other.run'' = [2] \<and>
   seqs (record_sample (snd (get_profiling_data busy_world ''Other.run'')) ''Other.run'' 5) 2 = [2] \<and>
   (''Other.run'', 3) \<in> set (fst (get_all_profiling_data busy_world)) \<and>
   stored_samples (overwrite (snd (get_all_profiling_data busy_world)) 3 [7]) ''Other.run'' = [2] \<and>
   seqs (record_sample (snd (get_all_profiling_data busy_world)) ''Other.run'' 5) 3 = [2]"
proof -
  have h: "registry_ok busy_world"
    by (simp add: registry_ok_def busy_world_def sample_world_def)
  have r: "fst (get_profiling_data busy_world ''Other.run'') = 2"
    by (simp add: get_profiling_data_frame busy_world_def)
  have s: "stored_samples busy_world ''Other.run'' = [2]"
    by (simp add: stored_samples_def busy_world_def sample_world_def)
  have m: "(''Other.run'', 3) \<in> set (fst (get_all_profiling_data busy_world))"
    by (simp add: get_all_profiling_data_def busy_world_def sample_world_def np_array_def Let_def)
  from returned_arrays_are_copies [OF h, of "''Other.run''"] h r s m
  show ?thesis by fastforce
qed

end
